theory Spec2Isabelle
  imports Main "HOL-Library.Stream"
begin

section \<open>The Markov chain engine of braidgenerator (markovchain.py)\<close>

text \<open>
  The development follows \<^verbatim>\<open>src/braidgenerator/markovchain.py\<close>. The class
  \<^verbatim>\<open>BraidWord\<close> and the decorator \<^verbatim>\<open>checkparams_markovchain\<close> live in other modules;
  the engine only calls the methods of a braid word, so these methods are parameters of the
  model (a record of operations over an arbitrary type of braid words).
\<close>

subsection \<open>Exceptions\<close>

datatype error = ValueError | TypeError | NameError | KeyError | IndexError

subsection \<open>The random source\<close>

text \<open>
  \<^verbatim>\<open>rr = random.randrange\<close> reads the one global generator of Python's \<^verbatim>\<open>random\<close>
  module. The generator is an explicit state here: an infinite sequence of raw draws.
  \<^verbatim>\<open>randrange(n)\<close> raises \<^verbatim>\<open>ValueError\<close> for \<open>n \<le> 0\<close> and otherwise consumes
  one raw draw and returns an integer of \<open>range(n)\<close>.
\<close>

type_synonym rng = "nat stream"

definition rr :: "rng \<Rightarrow> int \<Rightarrow> error + (int \<times> rng)" where
  "rr g n = (if n \<le> 0 then Inl ValueError else Inr (int (shd g mod nat n), stl g))"

subsection \<open>The methods of a braid word used by the engine\<close>

text \<open>
  Every move mutates the braid word in place, may draw from the random source and returns
  a truth value; the two companion predicates and the two read accessors only read.
\<close>

record 'w braidword_ops =
  length_bw :: "'w \<Rightarrow> int"
  largestGenerator :: "'w \<Rightarrow> int"
  conjugate :: "'w \<Rightarrow> int \<Rightarrow> rng \<Rightarrow> bool \<times> 'w \<times> rng"
  canCancel :: "'w \<Rightarrow> int \<Rightarrow> bool"
  cancel :: "'w \<Rightarrow> int \<Rightarrow> rng \<Rightarrow> bool \<times> 'w \<times> rng"
  insert_bw :: "'w \<Rightarrow> int \<Rightarrow> int \<Rightarrow> rng \<Rightarrow> bool \<times> 'w \<times> rng"
  transpose_bw :: "'w \<Rightarrow> int \<Rightarrow> rng \<Rightarrow> bool \<times> 'w \<times> rng"
  flip_bw :: "'w \<Rightarrow> int \<Rightarrow> rng \<Rightarrow> bool \<times> 'w \<times> rng"
  stabilize :: "'w \<Rightarrow> rng \<Rightarrow> bool \<times> 'w \<times> rng"
  canDestabilize :: "'w \<Rightarrow> bool"
  destabilize :: "'w \<Rightarrow> rng \<Rightarrow> bool \<times> 'w \<times> rng"

subsection \<open>The engine state\<close>

type_synonym log = "nat \<rightharpoonup> string"

record 'w agg =
  agg_braidreps :: "'w list"
  agg_logs :: "log list"

record 'w MarkovChain =
  braid :: 'w
  maxgen :: int
  maxlen :: int
  braidagg :: "'w agg"

text \<open>\<^verbatim>\<open>__init__\<close> after the parameter check of its decorator.\<close>

definition init :: "'w \<Rightarrow> int \<Rightarrow> int \<Rightarrow> 'w MarkovChain" where
  "init braidword mg ml =
     \<lparr>braid = braidword, maxgen = mg, maxlen = ml,
      braidagg = \<lparr>agg_braidreps = [], agg_logs = []\<rparr>\<rparr>"

subsection \<open>\<^verbatim>\<open>log_message\<close>\<close>

text \<open>Python's \<^verbatim>\<open>str\<close> of an integer: decimal digits, a minus sign for negatives.\<close>

definition digit :: "nat \<Rightarrow> char" where
  "digit d = ''0123456789'' ! d"

function str_nat :: "nat \<Rightarrow> string" where
  "str_nat n = (if n < 10 then [digit n] else str_nat (n div 10) @ [digit (n mod 10)])"
  by pat_completeness auto
termination
  by (relation "measure id") auto

declare str_nat.simps [simp del]

definition str :: "int \<Rightarrow> string" where
  "str i = (if i < 0 then CHR ''-'' # str_nat (nat (- i)) else str_nat (nat i))"

definition log_message :: "int \<Rightarrow> string \<Rightarrow> bool \<Rightarrow> string" where
  "log_message movetype name result =
     (let beg = ''MoveType: '' @ str movetype @ '', '';
          tmp = ''Attempted '' @ name @ '': '';
          tmp = (if result = True then tmp @ name @ '' Succeeded.''
                 else tmp @ name @ '' Failed.'')
      in beg @ tmp)"

subsection \<open>\<^verbatim>\<open>model\<close>\<close>

text \<open>
  One iteration of the inner loop. The state of an iteration is the braid word (the object
  \<^verbatim>\<open>self.braid\<close>, mutated in place), the random source and the log of the trial. The
  \<^verbatim>\<open>__name__\<close> of a method is the name it is called by.
\<close>

type_synonym 'w trial = "'w \<times> rng \<times> log"

definition model_step ::
  "'w braidword_ops \<Rightarrow> int \<Rightarrow> int \<Rightarrow> nat \<Rightarrow> 'w trial \<Rightarrow> error + 'w trial" where
  "model_step ops mg ml step s =
     (case s of (w, g, log) \<Rightarrow>
      case rr g 7 of Inl e \<Rightarrow> Inl e | Inr (movetype, g1) \<Rightarrow>
      case rr g1 (length_bw ops w) of Inl e \<Rightarrow> Inl e | Inr (index, g2) \<Rightarrow>
      if movetype = 0 then
        (case conjugate ops w index g2 of (ok, w', g3) \<Rightarrow>
           if ok then Inr (w', g3, log(step \<mapsto> log_message movetype ''conjugate'' True))
           else Inr (w', g3, log(step \<mapsto> log_message movetype ''conjugate'' False)))
      else if movetype = 1 then
        (if length_bw ops w = 2 \<and> canCancel ops w index then
           (let log1 = log(step \<mapsto> log_message movetype ''cancel'' False)
            in case log1 step of None \<Rightarrow> Inl KeyError
               | Some m \<Rightarrow> Inr (w, g2, log1(step \<mapsto> m @ ''Unknot'')))
         else
           (case cancel ops w index g2 of (ok, w', g3) \<Rightarrow>
              if ok then Inr (w', g3, log(step \<mapsto> log_message movetype ''cancel'' True))
              else Inr (w', g3, log(step \<mapsto> log_message movetype ''cancel'' False))))
      else if movetype = 2 then
        (if length_bw ops w \<le> ml - 2 then
           (case rr g2 (largestGenerator ops w + 1) of Inl e \<Rightarrow> Inl e
            | Inr (gen, g3) \<Rightarrow>
              (case insert_bw ops w index gen g3 of (ok, w', g4) \<Rightarrow>
                 if ok then Inr (w', g4, log(step \<mapsto> log_message movetype ''insert'' True))
                 else Inr (w', g4, log(step \<mapsto> log_message movetype ''insert'' False))))
         else Inr (w, g2, log(step \<mapsto> log_message movetype ''insert'' False)))
      else if movetype = 3 then
        (case transpose_bw ops w index g2 of (ok, w', g3) \<Rightarrow>
           if ok then Inr (w', g3, log(step \<mapsto> log_message movetype ''transpose'' True))
           else Inr (w', g3, log(step \<mapsto> log_message movetype ''transpose'' False)))
      else if movetype = 4 then
        (case flip_bw ops w index g2 of (ok, w', g3) \<Rightarrow>
           if ok then Inr (w', g3, log(step \<mapsto> log_message movetype ''flip'' True))
           else Inr (w', g3, log(step \<mapsto> log_message movetype ''flip'' False)))
      else if movetype = 5 then
        (if length_bw ops w \<le> ml - 1 \<and> largestGenerator ops w < mg then
           (case stabilize ops w g2 of (ok, w', g3) \<Rightarrow>
              if ok then Inr (w', g3, log(step \<mapsto> log_message movetype ''stabilize'' True))
              else Inr (w', g3, log(step \<mapsto> log_message movetype ''stabilize'' False)))
         else Inr (w, g2, log(step \<mapsto> log_message movetype ''stabilize'' False)))
      else if movetype = 6 then
        (if length_bw ops w = 1 \<and> canDestabilize ops w then
           (let log1 = log(step \<mapsto> log_message movetype ''destabilize'' False)
            in case log1 step of None \<Rightarrow> Inl KeyError
               | Some m \<Rightarrow> Inr (w, g2, log1(step \<mapsto> m @ ''Unknot'')))
         else
           (case destabilize ops w g2 of (ok, w', g3) \<Rightarrow>
              if ok then Inr (w', g3, log(step \<mapsto> log_message movetype ''destabilize'' True))
              else Inr (w', g3, log(step \<mapsto> log_message movetype ''destabilize'' False))))
      else Inr (w, g2, log))"

text \<open>The inner loop \<^verbatim>\<open>for step in range(msteps)\<close>; an exception ends it.\<close>

fun model_steps ::
  "'w braidword_ops \<Rightarrow> int \<Rightarrow> int \<Rightarrow> nat list \<Rightarrow> 'w trial \<Rightarrow> error + 'w trial" where
  "model_steps ops mg ml [] s = Inr s"
| "model_steps ops mg ml (step # steps) s =
     (case model_step ops mg ml step s of
        Inl e \<Rightarrow> Inl e
      | Inr s' \<Rightarrow> model_steps ops mg ml steps s')"

text \<open>
  The outer loop \<^verbatim>\<open>for _ in range(num_braidreps)\<close>: each trial starts from the current
  \<^verbatim>\<open>self.braid\<close> (not copied) with an empty log, and appends a deep copy of the braid
  word and the log to the aggregate.
\<close>

fun model_trials ::
  "'w braidword_ops \<Rightarrow> int \<Rightarrow> nat \<Rightarrow> 'w MarkovChain \<times> rng \<Rightarrow> error + ('w MarkovChain \<times> rng)"
  where
  "model_trials ops msteps 0 s = Inr s"
| "model_trials ops msteps (Suc n) s =
     (case s of (mc, g) \<Rightarrow>
      case model_steps ops (maxgen mc) (maxlen mc) [0..<nat msteps] (braid mc, g, Map.empty) of
        Inl e \<Rightarrow> Inl e
      | Inr (w', g', log) \<Rightarrow>
          model_trials ops msteps n
            (mc\<lparr>braid := w',
                braidagg := \<lparr>agg_braidreps = agg_braidreps (braidagg mc) @ [w'],
                             agg_logs = agg_logs (braidagg mc) @ [log]\<rparr>\<rparr>, g'))"

definition model ::
  "'w braidword_ops \<Rightarrow> 'w MarkovChain \<Rightarrow> rng \<Rightarrow> int \<Rightarrow> int \<Rightarrow> error + ('w MarkovChain \<times> rng)"
  where
  "model ops mc g num_braidreps msteps = model_trials ops msteps (nat num_braidreps) (mc, g)"

subsection \<open>\<^verbatim>\<open>clear_model\<close>\<close>

definition clear_model :: "'w MarkovChain \<Rightarrow> 'w MarkovChain" where
  "clear_model mc = mc\<lparr>braidagg := \<lparr>agg_braidreps = [], agg_logs = []\<rparr>\<rparr>"

subsection \<open>\<^verbatim>\<open>new_braidword\<close>\<close>

text \<open>
  The method is declared as \<^verbatim>\<open>def new_braidword(braidword: BraidWord)\<close>: it has one
  positional parameter and no \<^verbatim>\<open>self\<close>. The name \<^verbatim>\<open>self\<close> in its body is then a
  global name, and the module binds none (its globals are the imports and the class). The
  assignment \<^verbatim>\<open>self.braid = e\<close> evaluates \<^verbatim>\<open>e\<close> first and then looks \<^verbatim>\<open>self\<close> up.
  The constructor of \<^verbatim>\<open>BraidWord\<close> is a parameter.
\<close>

datatype 'w pyval =
    BraidWordV 'w
  | ListV "int list"
  | MarkovChainV "'w MarkovChain"
  | OtherV

definition module_self :: "'w MarkovChain option" where
  "module_self = None"

definition assign_self_braid :: "'w \<Rightarrow> error + 'w MarkovChain" where
  "assign_self_braid b =
     (case module_self of None \<Rightarrow> Inl NameError | Some mc \<Rightarrow> Inr (mc\<lparr>braid := b\<rparr>))"

definition new_braidword :: "(int list \<Rightarrow> error + 'w) \<Rightarrow> 'w pyval \<Rightarrow> error + 'w MarkovChain"
  where
  "new_braidword BraidWord_init braidword =
     (case braidword of
        BraidWordV b \<Rightarrow> assign_self_braid b
      | ListV xs \<Rightarrow>
          (case BraidWord_init xs of Inl e \<Rightarrow> Inl e | Inr b \<Rightarrow> assign_self_braid b)
      | _ \<Rightarrow> Inl ValueError)"

text \<open>
  Calling the function with a list of positional arguments: any number of arguments but
  one is a \<^verbatim>\<open>TypeError\<close>. A call through an instance, \<^verbatim>\<open>mc.new_braidword(...)\<close>, passes
  the instance as the first positional argument.
\<close>

definition call_new_braidword ::
  "(int list \<Rightarrow> error + 'w) \<Rightarrow> 'w pyval list \<Rightarrow> error + 'w MarkovChain" where
  "call_new_braidword BraidWord_init args =
     (case args of [braidword] \<Rightarrow> new_braidword BraidWord_init braidword
      | _ \<Rightarrow> Inl TypeError)"

definition method_new_braidword ::
  "(int list \<Rightarrow> error + 'w) \<Rightarrow> 'w MarkovChain \<Rightarrow> 'w pyval list \<Rightarrow> error + 'w MarkovChain"
  where
  "method_new_braidword BraidWord_init mc args =
     call_new_braidword BraidWord_init (MarkovChainV mc # args)"

subsection \<open>The accessors, over a store of objects\<close>

text \<open>
  Whether a caller who mutates a returned value reaches the engine depends on which objects
  are shared, so the accessors are modelled over a store: lists, dictionaries and
  \<^verbatim>\<open>BraidWord\<close> instances are objects at addresses; integers and strings are immutable
  and held by value. Of a \<^verbatim>\<open>BraidWord\<close> instance only the attribute \<^verbatim>\<open>word\<close> is kept,
  the one the accessors read. An address is an index into the store and allocation appends.
\<close>

type_synonym ref = nat

datatype pyobj =
    IntList "int list"
  | RefList "ref list"
  | BraidWordObj ref
  | LogDict log
  | AggDict ref ref

type_synonym store = "pyobj list"

definition lookup :: "store \<Rightarrow> ref \<Rightarrow> pyobj option" where
  "lookup h r = (if r < length h then Some (h ! r) else None)"

definition alloc :: "store \<Rightarrow> pyobj \<Rightarrow> ref \<times> store" where
  "alloc h obj = (length h, h @ [obj])"

text \<open>
  \<^verbatim>\<open>copy.deepcopy\<close> with its memo (an object met twice is copied once), by the kind of
  object: a list of integers, a \<^verbatim>\<open>BraidWord\<close>, a log, a list of objects, the aggregate.
  A store whose objects are not of the expected kind gives \<^verbatim>\<open>TypeError\<close>.
\<close>

type_synonym memo = "(ref \<times> ref) list"

type_synonym 'a copied = "error + ('a \<times> memo \<times> store)"

definition deepcopy_intlist :: "memo \<Rightarrow> store \<Rightarrow> ref \<Rightarrow> ref copied" where
  "deepcopy_intlist m h r =
     (case map_of m r of
        Some r' \<Rightarrow> Inr (r', m, h)
      | None \<Rightarrow>
          (case lookup h r of
             Some (IntList xs) \<Rightarrow>
               (case alloc h (IntList xs) of (r', h') \<Rightarrow> Inr (r', (r, r') # m, h'))
           | _ \<Rightarrow> Inl TypeError))"

definition deepcopy_braidword :: "memo \<Rightarrow> store \<Rightarrow> ref \<Rightarrow> ref copied" where
  "deepcopy_braidword m h r =
     (case map_of m r of
        Some r' \<Rightarrow> Inr (r', m, h)
      | None \<Rightarrow>
          (case lookup h r of
             Some (BraidWordObj w) \<Rightarrow>
               (case deepcopy_intlist m h w of
                  Inl e \<Rightarrow> Inl e
                | Inr (w', m1, h1) \<Rightarrow>
                    (case alloc h1 (BraidWordObj w') of
                       (r', h2) \<Rightarrow> Inr (r', (r, r') # m1, h2)))
           | _ \<Rightarrow> Inl TypeError))"

definition deepcopy_log :: "memo \<Rightarrow> store \<Rightarrow> ref \<Rightarrow> ref copied" where
  "deepcopy_log m h r =
     (case map_of m r of
        Some r' \<Rightarrow> Inr (r', m, h)
      | None \<Rightarrow>
          (case lookup h r of
             Some (LogDict d) \<Rightarrow>
               (case alloc h (LogDict d) of (r', h') \<Rightarrow> Inr (r', (r, r') # m, h'))
           | _ \<Rightarrow> Inl TypeError))"

fun deepcopy_elems ::
  "(memo \<Rightarrow> store \<Rightarrow> ref \<Rightarrow> ref copied) \<Rightarrow> memo \<Rightarrow> store \<Rightarrow> ref list \<Rightarrow> (ref list) copied"
  where
  "deepcopy_elems f m h [] = Inr ([], m, h)"
| "deepcopy_elems f m h (r # rs) =
     (case f m h r of
        Inl e \<Rightarrow> Inl e
      | Inr (r', m1, h1) \<Rightarrow>
          (case deepcopy_elems f m1 h1 rs of
             Inl e \<Rightarrow> Inl e
           | Inr (rs', m2, h2) \<Rightarrow> Inr (r' # rs', m2, h2)))"

definition deepcopy_list ::
  "(memo \<Rightarrow> store \<Rightarrow> ref \<Rightarrow> ref copied) \<Rightarrow> memo \<Rightarrow> store \<Rightarrow> ref \<Rightarrow> ref copied" where
  "deepcopy_list f m h r =
     (case map_of m r of
        Some r' \<Rightarrow> Inr (r', m, h)
      | None \<Rightarrow>
          (case lookup h r of
             Some (RefList rs) \<Rightarrow>
               (case deepcopy_elems f m h rs of
                  Inl e \<Rightarrow> Inl e
                | Inr (rs', m1, h1) \<Rightarrow>
                    (case alloc h1 (RefList rs') of
                       (r', h2) \<Rightarrow> Inr (r', (r, r') # m1, h2)))
           | _ \<Rightarrow> Inl TypeError))"

definition deepcopy_agg :: "memo \<Rightarrow> store \<Rightarrow> ref \<Rightarrow> ref copied" where
  "deepcopy_agg m h r =
     (case lookup h r of
        Some (AggDict rb rl) \<Rightarrow>
          (case deepcopy_list deepcopy_braidword m h rb of
             Inl e \<Rightarrow> Inl e
           | Inr (rb', m1, h1) \<Rightarrow>
               (case deepcopy_list deepcopy_log m1 h1 rl of
                  Inl e \<Rightarrow> Inl e
                | Inr (rl', m2, h2) \<Rightarrow>
                    (case alloc h2 (AggDict rb' rl') of
                       (r', h3) \<Rightarrow> Inr (r', (r, r') # m2, h3))))
      | _ \<Rightarrow> Inl TypeError)"

text \<open>
  The three accessors; \<open>agg\<close> is the address of the dictionary \<^verbatim>\<open>self.braidagg\<close>.
  Each returns the address of its result and the store after the call.
\<close>

definition aggregate :: "store \<Rightarrow> ref \<Rightarrow> error + (ref \<times> store)" where
  "aggregate h agg =
     (case deepcopy_agg [] h agg of Inl e \<Rightarrow> Inl e | Inr (r, m, h') \<Rightarrow> Inr (r, h'))"

definition logs :: "store \<Rightarrow> ref \<Rightarrow> error + (ref \<times> store)" where
  "logs h agg =
     (case lookup h agg of
        Some (AggDict rb rl) \<Rightarrow>
          (case deepcopy_list deepcopy_log [] h rl of
             Inl e \<Rightarrow> Inl e
           | Inr (r, m, h') \<Rightarrow> Inr (r, h'))
      | _ \<Rightarrow> Inl TypeError)"

definition word_attr :: "store \<Rightarrow> ref \<Rightarrow> ref option" where
  "word_attr h b = (case lookup h b of Some (BraidWordObj w) \<Rightarrow> Some w | _ \<Rightarrow> None)"

definition braidreps :: "store \<Rightarrow> ref \<Rightarrow> bool \<Rightarrow> error + (ref \<times> store)" where
  "braidreps h agg as_word =
     (case lookup h agg of
        Some (AggDict rb rl) \<Rightarrow>
          (case lookup h rb of
             Some (RefList bs) \<Rightarrow>
               (case alloc h (RefList bs) of
                  (isos, h1) \<Rightarrow>
                    if as_word then
                      (case those (map (word_attr h1) bs) of
                         None \<Rightarrow> Inl TypeError
                       | Some ws \<Rightarrow>
                           (case alloc h1 (RefList ws) of (isos', h2) \<Rightarrow> Inr (isos', h2)))
                    else if \<not> as_word then Inr (isos, h1)
                    else Inl ValueError)
           | _ \<Rightarrow> Inl TypeError)
      | _ \<Rightarrow> Inl TypeError)"

text \<open>What a caller sees when it reads a returned structure.\<close>

definition read_word :: "store \<Rightarrow> ref \<Rightarrow> int list option" where
  "read_word h w = (case lookup h w of Some (IntList xs) \<Rightarrow> Some xs | _ \<Rightarrow> None)"

definition read_braidword :: "store \<Rightarrow> ref \<Rightarrow> int list option" where
  "read_braidword h b = (case word_attr h b of None \<Rightarrow> None | Some w \<Rightarrow> read_word h w)"

definition read_log :: "store \<Rightarrow> ref \<Rightarrow> log option" where
  "read_log h r = (case lookup h r of Some (LogDict d) \<Rightarrow> Some d | _ \<Rightarrow> None)"

definition read_list :: "(store \<Rightarrow> ref \<Rightarrow> 'a option) \<Rightarrow> store \<Rightarrow> ref \<Rightarrow> 'a list option" where
  "read_list f h r =
     (case lookup h r of Some (RefList rs) \<Rightarrow> those (map (f h) rs) | _ \<Rightarrow> None)"

definition read_agg :: "store \<Rightarrow> ref \<Rightarrow> (int list list \<times> log list) option" where
  "read_agg h r =
     (case lookup h r of
        Some (AggDict rb rl) \<Rightarrow>
          (case read_list read_braidword h rb of
             None \<Rightarrow> None
           | Some ws \<Rightarrow>
               (case read_list read_log h rl of None \<Rightarrow> None | Some ls \<Rightarrow> Some (ws, ls)))
      | _ \<Rightarrow> None)"

text \<open>
  What a caller can do to a returned structure: \<^verbatim>\<open>r[i]\<close> on a list of objects,
  \<^verbatim>\<open>xs.append(x)\<close> on a list of integers, \<^verbatim>\<open>b.word\<close> of a snapshot,
  \<^verbatim>\<open>d[k] = v\<close> on a log, \<^verbatim>\<open>a['braidreps']\<close> and \<^verbatim>\<open>a['logs']\<close> of an aggregate.
\<close>

definition getitem :: "store \<Rightarrow> ref \<Rightarrow> nat \<Rightarrow> error + ref" where
  "getitem h r i =
     (case lookup h r of
        Some (RefList rs) \<Rightarrow> if i < length rs then Inr (rs ! i) else Inl IndexError
      | _ \<Rightarrow> Inl TypeError)"

definition append_int :: "store \<Rightarrow> ref \<Rightarrow> int \<Rightarrow> error + store" where
  "append_int h r x =
     (case lookup h r of
        Some (IntList xs) \<Rightarrow> Inr (h[r := IntList (xs @ [x])])
      | _ \<Rightarrow> Inl TypeError)"

definition get_word :: "store \<Rightarrow> ref \<Rightarrow> error + ref" where
  "get_word h b = (case word_attr h b of None \<Rightarrow> Inl TypeError | Some w \<Rightarrow> Inr w)"

definition setitem_log :: "store \<Rightarrow> ref \<Rightarrow> nat \<Rightarrow> string \<Rightarrow> error + store" where
  "setitem_log h r k v =
     (case lookup h r of
        Some (LogDict d) \<Rightarrow> Inr (h[r := LogDict (d(k \<mapsto> v))])
      | _ \<Rightarrow> Inl TypeError)"

definition get_braidreps :: "store \<Rightarrow> ref \<Rightarrow> error + ref" where
  "get_braidreps h a =
     (case lookup h a of Some (AggDict rb rl) \<Rightarrow> Inr rb | _ \<Rightarrow> Inl TypeError)"

definition get_logs :: "store \<Rightarrow> ref \<Rightarrow> error + ref" where
  "get_logs h a =
     (case lookup h a of Some (AggDict rb rl) \<Rightarrow> Inr rl | _ \<Rightarrow> Inl TypeError)"

text \<open>
  A copy allocates: with a memo whose targets are at or above \<open>n\<close>, it returns an address
  at or above \<open>n\<close> and a store that extends the one it started from.
\<close>

definition fresh_memo :: "nat \<Rightarrow> memo \<Rightarrow> bool" where
  "fresh_memo n m = (\<forall>b\<in>snd ` set m. n \<le> b)"

definition allocated :: "nat \<Rightarrow> memo \<Rightarrow> store \<Rightarrow> memo \<Rightarrow> store \<Rightarrow> bool" where
  "allocated n m h m' h' =
     (fresh_memo n m' \<and> length h \<le> length h' \<and> take (length h) h' = h)"

definition allocates :: "nat \<Rightarrow> (memo \<Rightarrow> store \<Rightarrow> ref \<Rightarrow> ref copied) \<Rightarrow> bool" where
  "allocates n f =
     (\<forall>m h r r' m' h'. fresh_memo n m \<longrightarrow> n \<le> length h \<longrightarrow> f m h r = Inr (r', m', h') \<longrightarrow>
        n \<le> r' \<and> allocated n m h m' h')"

subsection \<open>When every draw of \<^verbatim>\<open>model\<close> is defined\<close>

text \<open>
  \<^verbatim>\<open>rr(braid.length())\<close> raises for an empty word and
  \<^verbatim>\<open>rr(braid.largestGenerator + 1)\<close> raises for a negative largest generator. A word
  is drawable when neither happens; the moves keep words drawable when every move the engine
  can reach (Cancel and Destabilize only past their unknot guards) returns a drawable word.
\<close>

definition drawable :: "'w braidword_ops \<Rightarrow> 'w \<Rightarrow> bool" where
  "drawable ops w = (0 < length_bw ops w \<and> 0 \<le> largestGenerator ops w)"

definition moves_keep_drawable :: "'w braidword_ops \<Rightarrow> bool" where
  "moves_keep_drawable ops =
     (\<forall>w i k g. drawable ops w \<longrightarrow>
        drawable ops (fst (snd (conjugate ops w i g)))
      \<and> (\<not> (length_bw ops w = 2 \<and> canCancel ops w i) \<longrightarrow>
           drawable ops (fst (snd (cancel ops w i g))))
      \<and> drawable ops (fst (snd (insert_bw ops w i k g)))
      \<and> drawable ops (fst (snd (transpose_bw ops w i g)))
      \<and> drawable ops (fst (snd (flip_bw ops w i g)))
      \<and> drawable ops (fst (snd (stabilize ops w g)))
      \<and> (\<not> (length_bw ops w = 1 \<and> canDestabilize ops w) \<longrightarrow>
           drawable ops (fst (snd (destabilize ops w g)))))"

subsection \<open>A braid word class for concrete runs\<close>

text \<open>
  Modelled from the spec: the class \<^verbatim>\<open>BraidWord\<close> (module
  \<^verbatim>\<open>braidgenerator.braidword\<close>) is not among the sources. The definitions below follow
  the data model and the table of moves of the specification: a word is a sequence of signed
  integers, its length the count of elements, its largest generator the maximum magnitude
  (0 if empty). The bounds \<^verbatim>\<open>maxlen\<close> and \<^verbatim>\<open>maxgen\<close> are the engine's, which tests
  them before it calls Insert and Stabilize. These operations only instantiate the general
  statements at concrete inputs.
\<close>

type_synonym braidword = "int list"

definition bw_length :: "braidword \<Rightarrow> int" where
  "bw_length w = int (length w)"

definition bw_largestGenerator :: "braidword \<Rightarrow> int" where
  "bw_largestGenerator w = fold (\<lambda>x m. max \<bar>x\<bar> m) w 0"

definition bw_conjugate :: "braidword \<Rightarrow> int \<Rightarrow> rng \<Rightarrow> bool \<times> braidword \<times> rng" where
  "bw_conjugate w i g =
     (if 0 \<le> i \<and> i < int (length w) then (True, drop (nat i) w @ take (nat i) w, g)
      else (False, w, g))"

definition bw_canCancel :: "braidword \<Rightarrow> int \<Rightarrow> bool" where
  "bw_canCancel w i = (0 \<le> i \<and> i + 1 < int (length w) \<and> w ! nat i = - (w ! nat (i + 1)))"

definition bw_cancel :: "braidword \<Rightarrow> int \<Rightarrow> rng \<Rightarrow> bool \<times> braidword \<times> rng" where
  "bw_cancel w i g =
     (if bw_canCancel w i \<and> 1 \<le> int (length w) - 2
      then (True, take (nat i) w @ drop (nat i + 2) w, g)
      else (False, w, g))"

definition bw_insert :: "braidword \<Rightarrow> int \<Rightarrow> int \<Rightarrow> rng \<Rightarrow> bool \<times> braidword \<times> rng" where
  "bw_insert w i k g =
     (if 0 \<le> i \<and> i \<le> int (length w)
      then (True, take (nat i) w @ [k, - k] @ drop (nat i) w, g)
      else (False, w, g))"

definition bw_transpose :: "braidword \<Rightarrow> int \<Rightarrow> rng \<Rightarrow> bool \<times> braidword \<times> rng" where
  "bw_transpose w i g =
     (if 0 \<le> i \<and> i + 1 < int (length w) \<and> 2 \<le> \<bar>\<bar>w ! nat i\<bar> - \<bar>w ! nat (i + 1)\<bar>\<bar>
      then (True, w[nat i := w ! nat (i + 1), nat (i + 1) := w ! nat i], g)
      else (False, w, g))"

definition bw_flip :: "braidword \<Rightarrow> int \<Rightarrow> rng \<Rightarrow> bool \<times> braidword \<times> rng" where
  "bw_flip w i g =
     (if 1 \<le> i \<and> i + 1 < int (length w) \<and> w ! nat (i - 1) = w ! nat (i + 1)
         \<and> \<bar>\<bar>w ! nat i\<bar> - \<bar>w ! nat (i - 1)\<bar>\<bar> = 1 \<and> 0 < w ! nat i * w ! nat (i - 1)
      then (True, w[nat (i - 1) := w ! nat i, nat i := w ! nat (i - 1),
                    nat (i + 1) := w ! nat i], g)
      else (False, w, g))"

definition bw_stabilize :: "braidword \<Rightarrow> rng \<Rightarrow> bool \<times> braidword \<times> rng" where
  "bw_stabilize w g =
     (let k = bw_largestGenerator w + 1
      in (True, w @ [if shd g mod 2 = 0 then k else - k], stl g))"

definition bw_canDestabilize :: "braidword \<Rightarrow> bool" where
  "bw_canDestabilize w = (w \<noteq> [] \<and> count_list (map abs w) \<bar>last w\<bar> = 1)"

definition bw_destabilize :: "braidword \<Rightarrow> rng \<Rightarrow> bool \<times> braidword \<times> rng" where
  "bw_destabilize w g =
     (if bw_canDestabilize w \<and> 1 \<le> int (length w) - 1 then (True, butlast w, g)
      else (False, w, g))"

definition BraidWord :: "braidword braidword_ops" where
  "BraidWord =
     \<lparr>length_bw = bw_length, largestGenerator = bw_largestGenerator,
      conjugate = bw_conjugate, canCancel = bw_canCancel, cancel = bw_cancel,
      insert_bw = bw_insert, transpose_bw = bw_transpose, flip_bw = bw_flip,
      stabilize = bw_stabilize, canDestabilize = bw_canDestabilize,
      destabilize = bw_destabilize\<rparr>"

subsection \<open>Callers that mutate what an accessor returned\<close>

text \<open>
  Each caller calls an accessor, reads the result, mutates an object inside it in place,
  calls the same accessor again and reads the second result. It returns both readings.
\<close>

definition and_then :: "error + 'a \<Rightarrow> ('a \<Rightarrow> error + 'b) \<Rightarrow> error + 'b" where
  "and_then x f = (case x of Inl e \<Rightarrow> Inl e | Inr v \<Rightarrow> f v)"

definition caller_braidreps_words :: "store \<Rightarrow> ref \<Rightarrow> int \<Rightarrow>
    error + (int list list option \<times> int list list option)" where
  "caller_braidreps_words h agg x =
     and_then (braidreps h agg True) (\<lambda>(r, h1).
     and_then (getitem h1 r 0) (\<lambda>w.
     and_then (append_int h1 w x) (\<lambda>h2.
     and_then (braidreps h2 agg True) (\<lambda>(r', h3).
       Inr (read_list read_word h1 r, read_list read_word h3 r')))))"

definition caller_braidreps :: "store \<Rightarrow> ref \<Rightarrow> int \<Rightarrow>
    error + (int list list option \<times> int list list option)" where
  "caller_braidreps h agg x =
     and_then (braidreps h agg False) (\<lambda>(r, h1).
     and_then (getitem h1 r 0) (\<lambda>b.
     and_then (get_word h1 b) (\<lambda>w.
     and_then (append_int h1 w x) (\<lambda>h2.
     and_then (braidreps h2 agg False) (\<lambda>(r', h3).
       Inr (read_list read_braidword h1 r, read_list read_braidword h3 r'))))))"

definition caller_aggregate :: "store \<Rightarrow> ref \<Rightarrow> int \<Rightarrow> nat \<Rightarrow> string \<Rightarrow>
    error + ((int list list \<times> log list) option \<times> (int list list \<times> log list) option)" where
  "caller_aggregate h agg x k v =
     and_then (aggregate h agg) (\<lambda>(a, h1).
     and_then (get_braidreps h1 a) (\<lambda>rb.
     and_then (getitem h1 rb 0) (\<lambda>b.
     and_then (get_word h1 b) (\<lambda>w.
     and_then (append_int h1 w x) (\<lambda>h2.
     and_then (get_logs h2 a) (\<lambda>rl.
     and_then (getitem h2 rl 0) (\<lambda>d.
     and_then (setitem_log h2 d k v) (\<lambda>h3.
     and_then (aggregate h3 agg) (\<lambda>(a', h4).
       Inr (read_agg h1 a, read_agg h4 a'))))))))))"

definition caller_logs :: "store \<Rightarrow> ref \<Rightarrow> nat \<Rightarrow> string \<Rightarrow>
    error + (log list option \<times> log list option)" where
  "caller_logs h agg k v =
     and_then (logs h agg) (\<lambda>(r, h1).
     and_then (getitem h1 r 0) (\<lambda>d.
     and_then (setitem_log h1 d k v) (\<lambda>h2.
     and_then (logs h2 agg) (\<lambda>(r', h3).
       Inr (read_list read_log h1 r, read_list read_log h3 r')))))"

text \<open>
  The store of an engine after \<^verbatim>\<open>model(1, 0)\<close> on the word \<^verbatim>\<open>[1, 2, 3]\<close>: one
  snapshot and one empty log; the aggregate is at address 5.
\<close>

definition store0 :: store where
  "store0 = [IntList [1, 2, 3], BraidWordObj 0, RefList [1], LogDict Map.empty, RefList [3],
             AggDict 2 4]"

section \<open>Lemmas\<close>

subsection \<open>The random source and the messages\<close>

lemma rr_7: "rr g 7 = Inr (int (shd g mod 7), stl g)"
  by (simp add: rr_def)

lemma rr_range:
  assumes "rr g n = Inr (v, g')"
  shows "0 \<le> v \<and> v < n"
proof -
  from assms have n: "0 < n" and v: "v = int (shd g mod nat n)"
    by (auto simp: rr_def split: if_splits)
  from n have "shd g mod nat n < nat n" by simp
  with n v show ?thesis by linarith
qed

lemma rr_movetype:
  obtains mt where "rr g 7 = Inr (mt, stl g)"
    and "mt = 0 \<or> mt = 1 \<or> mt = 2 \<or> mt = 3 \<or> mt = 4 \<or> mt = 5 \<or> mt = 6"
proof -
  have "0 \<le> int (shd g mod 7) \<and> int (shd g mod 7) < 7"
    using rr_range [OF rr_7] .
  then have "int (shd g mod 7) = 0 \<or> int (shd g mod 7) = 1 \<or> int (shd g mod 7) = 2
    \<or> int (shd g mod 7) = 3 \<or> int (shd g mod 7) = 4 \<or> int (shd g mod 7) = 5
    \<or> int (shd g mod 7) = 6" by linarith
  then show ?thesis using that [OF rr_7] by blast
qed

lemma str_digit: "0 \<le> i \<Longrightarrow> i < 10 \<Longrightarrow> str i = [digit (nat i)]"
  by (simp add: str_def str_nat.simps)

lemma str_1: "str 1 = ''1''"
  by (simp add: str_digit digit_def)

lemma str_6: "str 6 = ''6''"
  by (simp add: str_digit digit_def)

lemma log_message_cancel_failed:
  "log_message 1 ''cancel'' False = ''MoveType: 1, Attempted cancel: cancel Failed.''"
  by (simp add: log_message_def str_1)

lemma log_message_destabilize_failed:
  "log_message 6 ''destabilize'' False =
   ''MoveType: 6, Attempted destabilize: destabilize Failed.''"
  by (simp add: log_message_def str_6)

lemma model_step_dom:
  assumes "model_step ops mg ml step (w, g, log) = Inr (w', g', log')"
  shows "dom log' = insert step (dom log)"
proof -
  obtain mt where mt: "rr g 7 = Inr (mt, stl g)"
    and "mt = 0 \<or> mt = 1 \<or> mt = 2 \<or> mt = 3 \<or> mt = 4 \<or> mt = 5 \<or> mt = 6"
    by (rule rr_movetype)
  with assms show ?thesis
    by (auto simp: model_step_def split: sum.splits prod.splits if_splits)
qed

lemma model_steps_dom:
  "model_steps ops mg ml steps (w, g, log) = Inr (w', g', log') \<Longrightarrow>
   dom log' = dom log \<union> set steps"
proof (induction steps arbitrary: w g log)
  case Nil
  then show ?case by simp
next
  case (Cons step steps)
  from Cons.prems obtain w1 g1 log1
    where s: "model_step ops mg ml step (w, g, log) = Inr (w1, g1, log1)"
      and r: "model_steps ops mg ml steps (w1, g1, log1) = Inr (w', g', log')"
    by (auto split: sum.splits)
  from Cons.IH [OF r] model_step_dom [OF s] show ?case by auto
qed

lemma cancel_guard:
  assumes "rr g 7 = Inr (1, g1)" and "rr g1 (length_bw ops w) = Inr (index, g2)"
    and "length_bw ops w = 2" and "canCancel ops w index"
  shows "model_step ops mg ml step (w, g, log) =
         Inr (w, g2, log(step \<mapsto> ''MoveType: 1, Attempted cancel: cancel Failed.Unknot''))"
  using assms(2-) unfolding model_step_def
  by (simp add: assms(1) log_message_cancel_failed)

lemma destabilize_guard:
  assumes "rr g 7 = Inr (6, g1)" and "rr g1 (length_bw ops w) = Inr (index, g2)"
    and "length_bw ops w = 1" and "canDestabilize ops w"
  shows "model_step ops mg ml step (w, g, log) =
         Inr (w, g2,
           log(step \<mapsto> ''MoveType: 6, Attempted destabilize: destabilize Failed.Unknot''))"
  using assms(2-) unfolding model_step_def
  by (simp add: assms(1) log_message_destabilize_failed)

lemma rr_pos: "0 < n \<Longrightarrow> rr g n = Inr (int (shd g mod nat n), stl g)"
  by (simp add: rr_def)


subsection \<open>The spec-modelled braid words\<close>

lemmas bw_defs = BraidWord_def bw_length_def bw_largestGenerator_def bw_conjugate_def
  bw_canCancel_def bw_cancel_def bw_insert_def bw_transpose_def bw_flip_def bw_stabilize_def
  bw_canDestabilize_def bw_destabilize_def

lemma rr_Cons: "0 < n \<Longrightarrow> rr (x ## g) n = Inr (int (x mod nat n), g)"
  by (simp add: rr_def)

lemma fold_max_ge: "m \<le> fold (\<lambda>x m. max \<bar>x\<bar> m) w (m::int)"
  by (induction w arbitrary: m) (auto intro: order_trans [OF max.cobounded2])

lemma BraidWord_drawable_iff: "drawable BraidWord w \<longleftrightarrow> w \<noteq> []"
  using fold_max_ge [of 0 w] by (auto simp: drawable_def bw_defs)

lemma length_pos_nonempty: "0 < length xs \<Longrightarrow> xs \<noteq> []"
  by auto

lemma bw_conjugate_nonempty: "w \<noteq> [] \<Longrightarrow> fst (snd (bw_conjugate w i g)) \<noteq> []"
proof -
  assume w: "w \<noteq> []"
  have len: "length (drop (nat i) w @ take (nat i) w) = length w"
    by simp
  from w have "0 < length w"
    by simp
  with len have "0 < length (drop (nat i) w @ take (nat i) w)"
    by linarith
  then have "drop (nat i) w @ take (nat i) w \<noteq> []"
    by (rule length_pos_nonempty)
  with w show ?thesis by (simp add: bw_conjugate_def)
qed

lemma bw_cancel_nonempty: "w \<noteq> [] \<Longrightarrow> fst (snd (bw_cancel w i g)) \<noteq> []"
proof -
  assume w: "w \<noteq> []"
  have "take (nat i) w @ drop (nat i + 2) w \<noteq> []"
    if c: "bw_canCancel w i" and l: "1 \<le> int (length w) - 2"
  proof -
    from c have "nat i + 2 \<le> length w"
      by (simp add: bw_canCancel_def) linarith
    with l have "length (take (nat i) w @ drop (nat i + 2) w) = length w - 2"
      by simp
    with l have "0 < length (take (nat i) w @ drop (nat i + 2) w)"
      by arith
    then show ?thesis by (rule length_pos_nonempty)
  qed
  with w show ?thesis by (simp add: bw_cancel_def)
qed

lemma bw_insert_nonempty: "w \<noteq> [] \<Longrightarrow> fst (snd (bw_insert w i k g)) \<noteq> []"
  by (simp add: bw_insert_def)

lemma bw_transpose_nonempty: "w \<noteq> [] \<Longrightarrow> fst (snd (bw_transpose w i g)) \<noteq> []"
  by (simp add: bw_transpose_def)

lemma bw_flip_nonempty: "w \<noteq> [] \<Longrightarrow> fst (snd (bw_flip w i g)) \<noteq> []"
  by (simp add: bw_flip_def)

lemma bw_stabilize_nonempty: "fst (snd (bw_stabilize w g)) \<noteq> []"
  by (simp add: bw_stabilize_def Let_def)

lemma bw_destabilize_nonempty: "w \<noteq> [] \<Longrightarrow> fst (snd (bw_destabilize w g)) \<noteq> []"
proof -
  assume w: "w \<noteq> []"
  have "butlast w \<noteq> []" if "1 \<le> int (length w) - 1"
  proof -
    from that have "0 < length (butlast w)" by simp
    then show ?thesis by (rule length_pos_nonempty)
  qed
  with w show ?thesis by (simp add: bw_destabilize_def)
qed

lemma BraidWord_keeps_drawable: "moves_keep_drawable BraidWord"
  unfolding moves_keep_drawable_def BraidWord_drawable_iff
  by (simp add: BraidWord_def bw_conjugate_nonempty bw_cancel_nonempty bw_insert_nonempty
      bw_transpose_nonempty bw_flip_nonempty bw_stabilize_nonempty bw_destabilize_nonempty)

subsection \<open>The loops of \<^verbatim>\<open>model\<close>\<close>

lemma model_step_total:
  assumes k: "moves_keep_drawable ops" and d: "drawable ops w"
  shows "\<exists>w' g' log'. model_step ops mg ml step (w, g, log) = Inr (w', g', log')
           \<and> drawable ops w'"
proof -
  obtain mt where mt: "rr g 7 = Inr (mt, stl g)"
    and cases: "mt = 0 \<or> mt = 1 \<or> mt = 2 \<or> mt = 3 \<or> mt = 4 \<or> mt = 5 \<or> mt = 6"
    by (rule rr_movetype)
  from d have len: "0 < length_bw ops w" and lg: "0 < largestGenerator ops w + 1"
    by (auto simp: drawable_def)
  note ix = rr_pos [OF len, of "stl g"]
  note gen = rr_pos [OF lg, of "stl (stl g)"]
  let ?i = "int (shd (stl g) mod nat (length_bw ops w))"
  let ?k = "int (shd (stl (stl g)) mod nat (largestGenerator ops w + 1))"
  from k d have
    c0: "drawable ops (fst (snd (conjugate ops w ?i (stl (stl g)))))" and
    c1: "\<not> (length_bw ops w = 2 \<and> canCancel ops w ?i) \<Longrightarrow>
         drawable ops (fst (snd (cancel ops w ?i (stl (stl g)))))" and
    c2: "drawable ops (fst (snd (insert_bw ops w ?i ?k (stl (stl (stl g))))))" and
    c3: "drawable ops (fst (snd (transpose_bw ops w ?i (stl (stl g)))))" and
    c4: "drawable ops (fst (snd (flip_bw ops w ?i (stl (stl g)))))" and
    c5: "drawable ops (fst (snd (stabilize ops w (stl (stl g)))))" and
    c6: "\<not> (length_bw ops w = 1 \<and> canDestabilize ops w) \<Longrightarrow>
         drawable ops (fst (snd (destabilize ops w (stl (stl g)))))"
    unfolding moves_keep_drawable_def by blast+
  from cases show ?thesis
  proof (elim disjE)
    assume "mt = 0"
    with mt ix c0 show ?thesis
      by (auto simp: model_step_def split: prod.splits)
  next
    assume "mt = 1"
    with mt ix c1 d show ?thesis
      by (auto simp: model_step_def split: prod.splits)
  next
    assume "mt = 2"
    with mt ix gen c2 d show ?thesis
      by (auto simp: model_step_def split: prod.splits)
  next
    assume "mt = 3"
    with mt ix c3 show ?thesis
      by (auto simp: model_step_def split: prod.splits)
  next
    assume "mt = 4"
    with mt ix c4 show ?thesis
      by (auto simp: model_step_def split: prod.splits)
  next
    assume "mt = 5"
    with mt ix c5 d show ?thesis
      by (auto simp: model_step_def split: prod.splits)
  next
    assume "mt = 6"
    with mt ix c6 d show ?thesis
      by (auto simp: model_step_def split: prod.splits)
  qed
qed

lemma model_steps_total:
  assumes k: "moves_keep_drawable ops"
  shows "drawable ops w \<Longrightarrow>
     \<exists>w' g' log'. model_steps ops mg ml steps (w, g, log) = Inr (w', g', log')
        \<and> drawable ops w'"
proof (induction steps arbitrary: w g log)
  case Nil
  then show ?case by simp
next
  case (Cons step steps)
  from model_step_total [OF k Cons.prems, of mg ml step g log] obtain w1 g1 log1
    where s: "model_step ops mg ml step (w, g, log) = Inr (w1, g1, log1)"
      and d1: "drawable ops w1"
    by blast
  from Cons.IH [OF d1, of g1 log1] s show ?case by simp
qed

lemma model_trials_Suc:
  "model_trials ops M (Suc n) (mc, g) = Inr (mc', g') \<Longrightarrow>
   \<exists>w1 g1 log1.
     model_steps ops (maxgen mc) (maxlen mc) [0..<nat M] (braid mc, g, Map.empty)
       = Inr (w1, g1, log1)
     \<and> model_trials ops M n
          (mc\<lparr>braid := w1,
              braidagg := \<lparr>agg_braidreps = agg_braidreps (braidagg mc) @ [w1],
                           agg_logs = agg_logs (braidagg mc) @ [log1]\<rparr>\<rparr>, g1) = Inr (mc', g')"
  by (auto split: sum.splits)

lemma model_trials_append:
  "model_trials ops M n (mc, g) = Inr (mc', g') \<Longrightarrow>
   \<exists>ws ls. length ws = n \<and> length ls = n
     \<and> agg_braidreps (braidagg mc') = agg_braidreps (braidagg mc) @ ws
     \<and> agg_logs (braidagg mc') = agg_logs (braidagg mc) @ ls
     \<and> (\<forall>l\<in>set ls. dom l = {0..<nat M})
     \<and> maxgen mc' = maxgen mc \<and> maxlen mc' = maxlen mc"
proof (induction n arbitrary: mc g)
  case 0
  then show ?case by simp
next
  case (Suc n)
  from model_trials_Suc [OF Suc.prems] obtain w1 g1 log1 where
    s: "model_steps ops (maxgen mc) (maxlen mc) [0..<nat M] (braid mc, g, Map.empty)
          = Inr (w1, g1, log1)" and
    r: "model_trials ops M n
          (mc\<lparr>braid := w1,
              braidagg := \<lparr>agg_braidreps = agg_braidreps (braidagg mc) @ [w1],
                           agg_logs = agg_logs (braidagg mc) @ [log1]\<rparr>\<rparr>, g1) = Inr (mc', g')"
    by blast
  from model_steps_dom [OF s] have d: "dom log1 = {0..<nat M}" by simp
  from Suc.IH [OF r] obtain ws ls where
    "length ws = n" "length ls = n"
    "agg_braidreps (braidagg mc') = (agg_braidreps (braidagg mc) @ [w1]) @ ws"
    "agg_logs (braidagg mc') = (agg_logs (braidagg mc) @ [log1]) @ ls"
    "\<forall>l\<in>set ls. dom l = {0..<nat M}"
    "maxgen mc' = maxgen mc" "maxlen mc' = maxlen mc"
    by auto
  with d show ?case
    by (intro exI [of _ "w1 # ws"] exI [of _ "log1 # ls"]) simp
qed

lemma model_trials_total:
  assumes k: "moves_keep_drawable ops"
  shows "drawable ops (braid mc) \<Longrightarrow>
     \<exists>mc' g'. model_trials ops M n (mc, g) = Inr (mc', g') \<and> drawable ops (braid mc')"
proof (induction n arbitrary: mc g)
  case 0
  then show ?case by simp
next
  case (Suc n)
  from model_steps_total [OF k Suc.prems, of "maxgen mc" "maxlen mc" "[0..<nat M]" g Map.empty]
  obtain w1 g1 log1 where
    s: "model_steps ops (maxgen mc) (maxlen mc) [0..<nat M] (braid mc, g, Map.empty)
          = Inr (w1, g1, log1)" and d: "drawable ops w1"
    by blast
  let ?mc1 = "mc\<lparr>braid := w1,
              braidagg := \<lparr>agg_braidreps = agg_braidreps (braidagg mc) @ [w1],
                           agg_logs = agg_logs (braidagg mc) @ [log1]\<rparr>\<rparr>"
  from d have "drawable ops (braid ?mc1)" by simp
  from Suc.IH [OF this, of g1] s show ?case by simp
qed


lemma upt_0_2: "[0..<2] = [0, 1]"
  by (simp add: upt_rec)

subsection \<open>Evaluating the store\<close>

lemmas store_defs = lookup_def alloc_def word_attr_def read_word_def read_braidword_def
  read_log_def read_list_def read_agg_def getitem_def append_int_def get_word_def
  setitem_log_def get_braidreps_def get_logs_def and_then_def

text \<open>
  \<^verbatim>\<open>braidreps\<close> allocates the outer list only: its elements are the addresses held by
  the engine's own list, or the addresses of the \<^verbatim>\<open>word\<close> lists of its snapshots.
\<close>

lemma word_attr_alloc_list: "word_attr (h @ [RefList bs]) = word_attr h"
  by (rule ext) (auto simp: word_attr_def lookup_def nth_append split: option.splits pyobj.splits)

lemma braidreps_shallow:
  assumes "lookup h agg = Some (AggDict rb rl)" and "lookup h rb = Some (RefList bs)"
  shows "braidreps h agg False = Inr (length h, h @ [RefList bs])"
  using assms by (simp add: braidreps_def alloc_def)

lemma braidreps_as_word_shallow:
  assumes "lookup h agg = Some (AggDict rb rl)" and "lookup h rb = Some (RefList bs)"
    and "those (map (word_attr h) bs) = Some ws"
  shows "braidreps h agg True = Inr (Suc (length h), h @ [RefList bs, RefList ws])"
  using assms by (simp add: braidreps_def alloc_def word_attr_alloc_list)

text \<open>
  \<^verbatim>\<open>aggregate\<close> and \<^verbatim>\<open>logs\<close> return a newly allocated object and leave every
  object of the store they started from as it was.
\<close>

lemma fresh_memo_lookup: "fresh_memo n m \<Longrightarrow> map_of m r = Some r' \<Longrightarrow> n \<le> r'"
  by (auto simp: fresh_memo_def dest!: map_of_SomeD)

lemma fresh_memo_Cons: "fresh_memo n m \<Longrightarrow> n \<le> r' \<Longrightarrow> fresh_memo n ((r, r') # m)"
  by (simp add: fresh_memo_def)

lemma allocated_refl: "fresh_memo n m \<Longrightarrow> allocated n m h m h"
  by (simp add: allocated_def)

lemma allocated_alloc:
  "fresh_memo n m \<Longrightarrow> n \<le> length h \<Longrightarrow> allocated n m h ((r, length h) # m) (h @ [obj])"
  by (simp add: allocated_def fresh_memo_Cons)

lemma allocated_trans:
  assumes "allocated n m h m1 h1" and "allocated n m1 h1 m2 h2"
  shows "allocated n m h m2 h2"
proof -
  from assms have l: "length h \<le> length h1" "length h1 \<le> length h2"
    and t: "take (length h) h1 = h" "take (length h1) h2 = h1"
    by (simp_all add: allocated_def)
  from l have "take (length h) h2 = take (length h) (take (length h1) h2)"
    by (simp add: min_def)
  with t have "take (length h) h2 = h" by simp
  with assms l show ?thesis by (simp add: allocated_def)
qed

lemma allocates_log: "allocates n deepcopy_log"
  unfolding allocates_def
proof (intro allI impI)
  fix m h r r' m' h'
  assume f: "fresh_memo n m" and n: "n \<le> length h"
    and e: "deepcopy_log m h r = Inr (r', m', h')"
  show "n \<le> r' \<and> allocated n m h m' h'"
  proof (cases "map_of m r")
    case (Some x)
    with e have "r' = x" "m' = m" "h' = h" by (simp_all add: deepcopy_log_def)
    with f Some show ?thesis by (simp add: fresh_memo_lookup allocated_refl)
  next
    case None
    with e obtain d where "r' = length h" "m' = (r, length h) # m" "h' = h @ [LogDict d]"
      by (auto simp: deepcopy_log_def alloc_def split: option.splits pyobj.splits)
    with f n show ?thesis by (simp add: allocated_alloc)
  qed
qed

lemma allocates_intlist: "allocates n deepcopy_intlist"
  unfolding allocates_def
proof (intro allI impI)
  fix m h r r' m' h'
  assume f: "fresh_memo n m" and n: "n \<le> length h"
    and e: "deepcopy_intlist m h r = Inr (r', m', h')"
  show "n \<le> r' \<and> allocated n m h m' h'"
  proof (cases "map_of m r")
    case (Some x)
    with e have "r' = x" "m' = m" "h' = h" by (simp_all add: deepcopy_intlist_def)
    with f Some show ?thesis by (simp add: fresh_memo_lookup allocated_refl)
  next
    case None
    with e obtain d where "r' = length h" "m' = (r, length h) # m" "h' = h @ [IntList d]"
      by (auto simp: deepcopy_intlist_def alloc_def split: option.splits pyobj.splits)
    with f n show ?thesis by (simp add: allocated_alloc)
  qed
qed

lemma allocatesD:
  "allocates n f \<Longrightarrow> fresh_memo n m \<Longrightarrow> n \<le> length h \<Longrightarrow> f m h r = Inr (r', m', h') \<Longrightarrow>
   n \<le> r' \<and> allocated n m h m' h'"
  unfolding allocates_def by blast

lemma allocated_fresh: "allocated n m h m' h' \<Longrightarrow> fresh_memo n m'"
  by (simp add: allocated_def)

lemma allocated_length: "allocated n m h m' h' \<Longrightarrow> n \<le> length h \<Longrightarrow> n \<le> length h'"
  by (simp add: allocated_def)

lemma allocates_braidword: "allocates n deepcopy_braidword"
  unfolding allocates_def
proof (intro allI impI)
  fix m h r r' m' h'
  assume f: "fresh_memo n m" and n: "n \<le> length h"
    and e: "deepcopy_braidword m h r = Inr (r', m', h')"
  show "n \<le> r' \<and> allocated n m h m' h'"
  proof (cases "map_of m r")
    case (Some x)
    with e have "r' = x" "m' = m" "h' = h" by (simp_all add: deepcopy_braidword_def)
    with f Some show ?thesis by (simp add: fresh_memo_lookup allocated_refl)
  next
    case None
    with e obtain w w' m1 h1 where
      c: "deepcopy_intlist m h w = Inr (w', m1, h1)" and
      r: "r' = length h1" "m' = (r, length h1) # m1" "h' = h1 @ [BraidWordObj w']"
      by (auto simp: deepcopy_braidword_def alloc_def
          split: option.splits pyobj.splits sum.splits)
    from allocatesD [OF allocates_intlist f n c] have a: "allocated n m h m1 h1" by simp
    from allocated_alloc [OF allocated_fresh [OF a] allocated_length [OF a n]]
    have "allocated n m1 h1 ((r, length h1) # m1) (h1 @ [BraidWordObj w'])" .
    with a r allocated_length [OF a n] show ?thesis
      by (auto intro: allocated_trans)
  qed
qed

lemma deepcopy_elems_allocated:
  assumes al: "allocates n f"
  shows "fresh_memo n m \<Longrightarrow> n \<le> length h \<Longrightarrow> deepcopy_elems f m h rs = Inr (rs', m', h') \<Longrightarrow>
     (\<forall>r\<in>set rs'. n \<le> r) \<and> allocated n m h m' h'"
proof (induction rs arbitrary: m h rs')
  case Nil
  then show ?case by (simp add: allocated_refl)
next
  case (Cons r rs)
  from Cons.prems(3) obtain r1 m1 h1 rs1 where
    c: "f m h r = Inr (r1, m1, h1)" and
    d: "deepcopy_elems f m1 h1 rs = Inr (rs1, m', h')" and
    e: "rs' = r1 # rs1"
    by (auto split: sum.splits)
  from allocatesD [OF al Cons.prems(1,2) c] have r1: "n \<le> r1" and a: "allocated n m h m1 h1"
    by simp_all
  from Cons.IH [OF allocated_fresh [OF a] allocated_length [OF a Cons.prems(2)] d]
  have "(\<forall>r\<in>set rs1. n \<le> r) \<and> allocated n m1 h1 m' h'" .
  with r1 a e show ?case by (auto intro: allocated_trans)
qed

lemma allocates_list:
  assumes al: "allocates n f"
  shows "allocates n (deepcopy_list f)"
  unfolding allocates_def
proof (intro allI impI)
  fix m h r r' m' h'
  assume f: "fresh_memo n m" and n: "n \<le> length h"
    and e: "deepcopy_list f m h r = Inr (r', m', h')"
  show "n \<le> r' \<and> allocated n m h m' h'"
  proof (cases "map_of m r")
    case (Some x)
    with e have "r' = x" "m' = m" "h' = h" by (simp_all add: deepcopy_list_def)
    with f Some show ?thesis by (simp add: fresh_memo_lookup allocated_refl)
  next
    case None
    with e obtain rs rs' m1 h1 where
      c: "deepcopy_elems f m h rs = Inr (rs', m1, h1)" and
      r: "r' = length h1" "m' = (r, length h1) # m1" "h' = h1 @ [RefList rs']"
      by (auto simp: deepcopy_list_def alloc_def
          split: option.splits pyobj.splits sum.splits)
    from deepcopy_elems_allocated [OF al f n c] have a: "allocated n m h m1 h1" by simp
    from allocated_alloc [OF allocated_fresh [OF a] allocated_length [OF a n]]
    have "allocated n m1 h1 ((r, length h1) # m1) (h1 @ [RefList rs'])" .
    with a r allocated_length [OF a n] show ?thesis
      by (auto intro: allocated_trans)
  qed
qed

lemma fresh_memo_Nil: "fresh_memo n []"
  by (simp add: fresh_memo_def)

lemma logs_allocates:
  assumes "logs h agg = Inr (r, h')"
  shows "length h \<le> r \<and> length h \<le> length h' \<and> take (length h) h' = h"
proof -
  from assms obtain rb rl m' where
    "deepcopy_list deepcopy_log [] h rl = Inr (r, m', h')"
    by (auto simp: logs_def split: option.splits pyobj.splits sum.splits)
  from allocatesD [OF allocates_list [OF allocates_log] fresh_memo_Nil order_refl this]
  show ?thesis by (simp add: allocated_def)
qed

lemma aggregate_allocates:
  assumes "aggregate h agg = Inr (r, h')"
  shows "length h \<le> r \<and> length h \<le> length h' \<and> take (length h) h' = h"
proof -
  from assms obtain rb rl rb' rl' m1 h1 m2 h2 where
    b: "deepcopy_list deepcopy_braidword [] h rb = Inr (rb', m1, h1)" and
    l: "deepcopy_list deepcopy_log m1 h1 rl = Inr (rl', m2, h2)" and
    r: "r = length h2" "h' = h2 @ [AggDict rb' rl']"
    by (auto simp: aggregate_def deepcopy_agg_def alloc_def
        split: option.splits pyobj.splits sum.splits)
  from allocatesD [OF allocates_list [OF allocates_braidword] fresh_memo_Nil order_refl b]
  have a1: "allocated (length h) [] h m1 h1" by simp
  from allocatesD [OF allocates_list [OF allocates_log] allocated_fresh [OF a1]
      allocated_length [OF a1 order_refl] l]
  have a2: "allocated (length h) m1 h1 m2 h2" by simp
  from allocated_trans [OF a1 a2] r show ?thesis
    by (simp add: allocated_def)
qed

section \<open>Properties\<close>

text \<open>
  C9. For every move type code, move name and result, the message of \<^verbatim>\<open>log_message\<close>
  is exactly \<^verbatim>\<open>MoveType: {moveType}, Attempted {moveName}: {moveName} Succeeded.\<close> on
  success and the same with \<^verbatim>\<open>Failed.\<close> on failure.
\<close>

theorem log_message_format:
  "log_message movetype name True =
     ''MoveType: '' @ str movetype @ '', Attempted '' @ name @ '': '' @ name @ '' Succeeded.''
   \<and> log_message movetype name False =
     ''MoveType: '' @ str movetype @ '', Attempted '' @ name @ '': '' @ name @ '' Failed.''"
  by (simp add: log_message_def)

text \<open>
  C8. \<^verbatim>\<open>clear_model\<close> leaves the aggregate with empty \<^verbatim>\<open>braidreps\<close> and
  \<^verbatim>\<open>logs\<close>; the working word and both bounds are as before.
\<close>

theorem clear_model_resets_aggregate:
  "braidagg (clear_model mc) = \<lparr>agg_braidreps = [], agg_logs = []\<rparr>
   \<and> braid (clear_model mc) = braid mc
   \<and> maxgen (clear_model mc) = maxgen mc
   \<and> maxlen (clear_model mc) = maxlen mc"
  by (simp add: clear_model_def)

text \<open>
  C4. When the move drawn is Cancel, the word has length 2 and \<^verbatim>\<open>canCancel(index)\<close> holds,
  or the move drawn is Destabilize, the word has length 1 and \<^verbatim>\<open>canDestabilize()\<close>
  holds, the iteration leaves the word as it is and the log entry of the step is the
  failure message followed by \<^verbatim>\<open>Unknot\<close>.
\<close>

theorem unknot_guards:
  "(rr g 7 = Inr (1, g1) \<and> rr g1 (length_bw ops w) = Inr (index, g2)
      \<and> length_bw ops w = 2 \<and> canCancel ops w index
    \<longrightarrow> model_step ops mg ml step (w, g, log) =
          Inr (w, g2, log(step \<mapsto> ''MoveType: 1, Attempted cancel: cancel Failed.Unknot'')))
   \<and> (rr g 7 = Inr (6, g1) \<and> rr g1 (length_bw ops w) = Inr (index, g2)
      \<and> length_bw ops w = 1 \<and> canDestabilize ops w
    \<longrightarrow> model_step ops mg ml step (w, g, log) =
          Inr (w, g2,
            log(step \<mapsto> ''MoveType: 6, Attempted destabilize: destabilize Failed.Unknot'')))"
proof (intro conjI impI)
  assume "rr g 7 = Inr (1, g1) \<and> rr g1 (length_bw ops w) = Inr (index, g2)
      \<and> length_bw ops w = 2 \<and> canCancel ops w index"
  then show "model_step ops mg ml step (w, g, log) =
      Inr (w, g2, log(step \<mapsto> ''MoveType: 1, Attempted cancel: cancel Failed.Unknot''))"
    by (elim conjE) (rule cancel_guard)
next
  assume "rr g 7 = Inr (6, g1) \<and> rr g1 (length_bw ops w) = Inr (index, g2)
      \<and> length_bw ops w = 1 \<and> canDestabilize ops w"
  then show "model_step ops mg ml step (w, g, log) =
      Inr (w, g2,
        log(step \<mapsto> ''MoveType: 6, Attempted destabilize: destabilize Failed.Unknot''))"
    by (elim conjE) (rule destabilize_guard)
qed

theorem unknot_guards_witness:
  "canCancel BraidWord [1, - 1] 0
   \<and> model_step BraidWord 9 10 0 ([1, - 1], 1 ## 0 ## sconst 0, Map.empty) =
       Inr ([1, - 1], sconst 0,
         [0 \<mapsto> ''MoveType: 1, Attempted cancel: cancel Failed.Unknot''])
   \<and> canDestabilize BraidWord [1]
   \<and> model_step BraidWord 9 10 0 ([1], 6 ## 0 ## sconst 0, Map.empty) =
       Inr ([1], sconst 0,
         [0 \<mapsto> ''MoveType: 6, Attempted destabilize: destabilize Failed.Unknot''])"
proof -
  have c: "rr (1 ## 0 ## sconst 0) 7 = Inr (1, 0 ## sconst 0)
      \<and> rr (0 ## sconst 0) (length_bw BraidWord [1, - 1]) = Inr (0, sconst 0)
      \<and> length_bw BraidWord [1, - 1] = 2 \<and> canCancel BraidWord [1, - 1] 0"
    by (simp add: rr_Cons bw_defs)
  have d: "rr (6 ## 0 ## sconst 0) 7 = Inr (6, 0 ## sconst 0)
      \<and> rr (0 ## sconst 0) (length_bw BraidWord [1]) = Inr (0, sconst 0)
      \<and> length_bw BraidWord [1] = 1 \<and> canDestabilize BraidWord [1]"
    by (simp add: rr_Cons bw_defs)
  from c d
    unknot_guards [THEN conjunct1, rule_format, OF c, of 9 10 0 Map.empty]
    unknot_guards [THEN conjunct2, rule_format, OF d, of 9 10 0 Map.empty]
  show ?thesis by simp
qed

text \<open>
  C6. When the move drawn is Stabilize, the engine calls \<^verbatim>\<open>stabilize\<close> only if the
  length is at most \<^verbatim>\<open>maxlen - 1\<close> and the appended magnitude
  \<^verbatim>\<open>largestGenerator + 1\<close> is at most \<^verbatim>\<open>maxgen\<close>; otherwise the step is logged as
  failed, the word is unchanged and nothing more is drawn.
\<close>

theorem stabilize_guard:
  "rr g 7 = Inr (5, g1) \<and> rr g1 (length_bw ops w) = Inr (index, g2) \<longrightarrow>
     (if length_bw ops w \<le> ml - 1 \<and> largestGenerator ops w + 1 \<le> mg
      then model_step ops mg ml step (w, g, log) =
           (case stabilize ops w g2 of
              (ok, w', g3) \<Rightarrow> Inr (w', g3, log(step \<mapsto> log_message 5 ''stabilize'' ok)))
      else model_step ops mg ml step (w, g, log) =
           Inr (w, g2, log(step \<mapsto> log_message 5 ''stabilize'' False)))"
  by (auto simp: model_step_def split: prod.splits)

theorem stabilize_guard_witness:
  "model_step BraidWord 9 3 0 ([1, 2, 3], 5 ## 0 ## sconst 0, Map.empty) =
     Inr ([1, 2, 3], sconst 0, [0 \<mapsto> log_message 5 ''stabilize'' False])
   \<and> model_step BraidWord 3 10 0 ([1, 2, 3], 5 ## 0 ## sconst 0, Map.empty) =
     Inr ([1, 2, 3], sconst 0, [0 \<mapsto> log_message 5 ''stabilize'' False])
   \<and> model_step BraidWord 9 10 0 ([1, 2, 3], 5 ## 0 ## sconst 0, Map.empty) =
     Inr ([1, 2, 3, 4], sconst 0, [0 \<mapsto> log_message 5 ''stabilize'' True])"
proof -
  have h: "rr (5 ## 0 ## sconst 0) 7 = Inr (5, 0 ## sconst 0)
      \<and> rr (0 ## sconst 0) (length_bw BraidWord [1, 2, 3]) = Inr (0, sconst 0)"
    by (simp add: rr_Cons bw_defs)
  from stabilize_guard [rule_format, OF h, of 3 9 0 Map.empty]
    stabilize_guard [rule_format, OF h, of 10 3 0 Map.empty]
    stabilize_guard [rule_format, OF h, of 10 9 0 Map.empty]
  show ?thesis by (simp add: bw_defs)
qed

text \<open>
  C7. The move-type draw \<^verbatim>\<open>rr(7)\<close> is an integer of [0, 6], so every iteration that
  returns has written the entry of its step: the branch that writes none is not taken. A
  trial that runs to its end has an entry for exactly the steps of [0, msteps), and so has
  every log that a call of \<^verbatim>\<open>model\<close> appends. The call returns whenever the word stays
  drawable.
\<close>

theorem movetype_in_range_every_step_logged:
  "(\<exists>mt. rr g 7 = Inr (mt, stl g) \<and> 0 \<le> mt \<and> mt \<le> 6)
   \<and> (model_step ops mg ml step (w, g, log) = Inr (w', g', log')
        \<longrightarrow> dom log' = insert step (dom log))
   \<and> (model_steps ops mg ml [0..<nat msteps] (w, g, Map.empty) = Inr (w1, g1, log1)
        \<longrightarrow> dom log1 = {0..<nat msteps})
   \<and> (model ops mc g num_braidreps msteps = Inr (mc', g2)
        \<longrightarrow> (\<exists>ls. agg_logs (braidagg mc') = agg_logs (braidagg mc) @ ls
              \<and> length ls = nat num_braidreps
              \<and> (\<forall>l\<in>set ls. dom l = {0..<nat msteps})))
   \<and> (moves_keep_drawable ops \<and> drawable ops (braid mc)
        \<longrightarrow> (\<exists>mc3 g3. model ops mc g num_braidreps msteps = Inr (mc3, g3)))"
proof (intro conjI impI)
  show "\<exists>mt. rr g 7 = Inr (mt, stl g) \<and> 0 \<le> mt \<and> mt \<le> 6"
    using rr_range [OF rr_7, of g] rr_7 [of g] by auto
next
  assume "model_step ops mg ml step (w, g, log) = Inr (w', g', log')"
  then show "dom log' = insert step (dom log)" by (rule model_step_dom)
next
  assume "model_steps ops mg ml [0..<nat msteps] (w, g, Map.empty) = Inr (w1, g1, log1)"
  from model_steps_dom [OF this] show "dom log1 = {0..<nat msteps}" by simp
next
  assume "model ops mc g num_braidreps msteps = Inr (mc', g2)"
  then have "model_trials ops msteps (nat num_braidreps) (mc, g) = Inr (mc', g2)"
    by (simp add: model_def)
  from model_trials_append [OF this]
  show "\<exists>ls. agg_logs (braidagg mc') = agg_logs (braidagg mc) @ ls
      \<and> length ls = nat num_braidreps \<and> (\<forall>l\<in>set ls. dom l = {0..<nat msteps})"
    by blast
next
  assume "moves_keep_drawable ops \<and> drawable ops (braid mc)"
  then show "\<exists>mc3 g3. model ops mc g num_braidreps msteps = Inr (mc3, g3)"
    unfolding model_def
    using model_trials_total [of ops mc msteps "nat num_braidreps" g] by blast
qed

theorem movetype_in_range_every_step_logged_witness:
  "model BraidWord (init [1, 2, 3] 9 10) (3 ## 0 ## 5 ## 1 ## sconst 0) 1 2 =
     Inr (\<lparr>braid = [1, 2, 3, 4], maxgen = 9, maxlen = 10,
           braidagg = \<lparr>agg_braidreps = [[1, 2, 3, 4]],
             agg_logs = [[0 \<mapsto> ''MoveType: 3, Attempted transpose: transpose Failed.'',
                          1 \<mapsto> ''MoveType: 5, Attempted stabilize: stabilize Succeeded.'']]\<rparr>\<rparr>,
          sconst 0)
   \<and> (\<exists>ls. [[0 \<mapsto> ''MoveType: 3, Attempted transpose: transpose Failed.'',
              1 \<mapsto> ''MoveType: 5, Attempted stabilize: stabilize Succeeded.'']] = ls
         \<and> length ls = nat 1 \<and> list_all (\<lambda>l. dom l = {0..<nat 2}) ls)"
proof -
  have run: "model BraidWord (init [1, 2, 3] 9 10) (3 ## 0 ## 5 ## 1 ## sconst 0) 1 2 =
     Inr (\<lparr>braid = [1, 2, 3, 4], maxgen = 9, maxlen = 10,
           braidagg = \<lparr>agg_braidreps = [[1, 2, 3, 4]],
             agg_logs = [[0 \<mapsto> ''MoveType: 3, Attempted transpose: transpose Failed.'',
                          1 \<mapsto> ''MoveType: 5, Attempted stabilize: stabilize Succeeded.'']]\<rparr>\<rparr>,
          sconst 0)"
    by (simp add: model_def init_def upt_0_2 model_step_def rr_Cons bw_defs
        log_message_def str_digit digit_def)
  from movetype_in_range_every_step_logged
    [THEN conjunct2, THEN conjunct2, THEN conjunct2, THEN conjunct1, rule_format, OF run]
  have "\<exists>ls. [[0 \<mapsto> ''MoveType: 3, Attempted transpose: transpose Failed.'',
              1 \<mapsto> ''MoveType: 5, Attempted stabilize: stabilize Succeeded.'']] = ls
         \<and> length ls = nat 1 \<and> list_all (\<lambda>l. dom l = {0..<nat 2}) ls"
    by (simp add: init_def list_all_iff)
  with run show ?thesis by (rule_tac conjI)
qed

text \<open>
  C5. \<^verbatim>\<open>model(num_braidreps = N, msteps = M)\<close> appends exactly N entries to
  \<^verbatim>\<open>braidreps\<close> and N entries to \<^verbatim>\<open>logs\<close>, whatever the aggregate held before, so
  lists of equal length stay of equal length; every appended log has its keys in [0, M)
  and at most M entries. The call returns whenever the working word is drawable and the
  moves keep it so.
\<close>

theorem model_appends_braidreps_and_logs:
  "moves_keep_drawable ops \<and> drawable ops (braid mc) \<longrightarrow>
   (\<exists>mc' g' ws ls.
      model ops mc g N M = Inr (mc', g')
      \<and> agg_braidreps (braidagg mc') = agg_braidreps (braidagg mc) @ ws
      \<and> agg_logs (braidagg mc') = agg_logs (braidagg mc) @ ls
      \<and> length ws = nat N \<and> length ls = nat N
      \<and> (\<forall>l\<in>set ls. dom l \<subseteq> {0..<nat M} \<and> card (dom l) \<le> nat M)
      \<and> (length (agg_braidreps (braidagg mc)) = length (agg_logs (braidagg mc))
           \<longrightarrow> length (agg_braidreps (braidagg mc')) = length (agg_logs (braidagg mc'))))"
proof
  assume a: "moves_keep_drawable ops \<and> drawable ops (braid mc)"
  then obtain mc' g' where r: "model_trials ops M (nat N) (mc, g) = Inr (mc', g')"
    using model_trials_total [of ops mc M "nat N" g] by blast
  from model_trials_append [OF r] obtain ws ls where
    s: "length ws = nat N" "length ls = nat N"
      "agg_braidreps (braidagg mc') = agg_braidreps (braidagg mc) @ ws"
      "agg_logs (braidagg mc') = agg_logs (braidagg mc) @ ls"
    and d: "\<forall>l\<in>set ls. dom l = {0..<nat M}"
    by blast
  from d have "\<forall>l\<in>set ls. dom l \<subseteq> {0..<nat M} \<and> card (dom l) \<le> nat M"
    by simp
  with r s show "\<exists>mc' g' ws ls.
      model ops mc g N M = Inr (mc', g')
      \<and> agg_braidreps (braidagg mc') = agg_braidreps (braidagg mc) @ ws
      \<and> agg_logs (braidagg mc') = agg_logs (braidagg mc) @ ls
      \<and> length ws = nat N \<and> length ls = nat N
      \<and> (\<forall>l\<in>set ls. dom l \<subseteq> {0..<nat M} \<and> card (dom l) \<le> nat M)
      \<and> (length (agg_braidreps (braidagg mc)) = length (agg_logs (braidagg mc))
           \<longrightarrow> length (agg_braidreps (braidagg mc')) = length (agg_logs (braidagg mc')))"
    unfolding model_def
    by (intro exI [of _ mc'] exI [of _ g'] exI [of _ ws] exI [of _ ls]) simp
qed

theorem model_appends_braidreps_and_logs_witness:
  "moves_keep_drawable BraidWord \<and> drawable BraidWord (braid (init [1, 2, 3] 9 10))
   \<and> model BraidWord (init [1, 2, 3] 9 10) (5 ## 0 ## 0 ## 1 ## 0 ## sconst 0) 2 1 =
       Inr (\<lparr>braid = [1, 2, 3, 4], maxgen = 9, maxlen = 10,
             braidagg = \<lparr>agg_braidreps = [[1, 2, 3, 4], [1, 2, 3, 4]],
               agg_logs = [[0 \<mapsto> ''MoveType: 5, Attempted stabilize: stabilize Succeeded.''],
                           [0 \<mapsto> ''MoveType: 1, Attempted cancel: cancel Failed.'']]\<rparr>\<rparr>,
            sconst 0)
   \<and> (\<exists>mc' g' ws ls.
        model BraidWord (init [1, 2, 3] 9 10) (5 ## 0 ## 0 ## 1 ## 0 ## sconst 0) 2 1
          = Inr (mc', g')
        \<and> agg_braidreps (braidagg mc') = ws \<and> agg_logs (braidagg mc') = ls
        \<and> length ws = 2 \<and> length ls = 2)"
proof -
  have h: "moves_keep_drawable BraidWord \<and> drawable BraidWord (braid (init [1, 2, 3] 9 10))"
    by (simp add: BraidWord_keeps_drawable BraidWord_drawable_iff init_def)
  have run: "model BraidWord (init [1, 2, 3] 9 10) (5 ## 0 ## 0 ## 1 ## 0 ## sconst 0) 2 1 =
       Inr (\<lparr>braid = [1, 2, 3, 4], maxgen = 9, maxlen = 10,
             braidagg = \<lparr>agg_braidreps = [[1, 2, 3, 4], [1, 2, 3, 4]],
               agg_logs = [[0 \<mapsto> ''MoveType: 5, Attempted stabilize: stabilize Succeeded.''],
                           [0 \<mapsto> ''MoveType: 1, Attempted cancel: cancel Failed.'']]\<rparr>\<rparr>,
            sconst 0)"
    by (simp add: model_def init_def numeral_2_eq_2 model_step_def rr_Cons bw_defs
        log_message_def str_digit digit_def)
  from model_appends_braidreps_and_logs [rule_format, OF h,
      of "5 ## 0 ## 0 ## 1 ## 0 ## sconst 0" 2 1]
  have "\<exists>mc' g' ws ls.
        model BraidWord (init [1, 2, 3] 9 10) (5 ## 0 ## 0 ## 1 ## 0 ## sconst 0) 2 1
          = Inr (mc', g')
        \<and> agg_braidreps (braidagg mc') = ws \<and> agg_logs (braidagg mc') = ls
        \<and> length ws = 2 \<and> length ls = 2"
    by (auto simp: init_def)
  with h run show ?thesis by blast
qed



text \<open>
  The generator that the Insert branch draws: the result of \<^verbatim>\<open>rr(largestGenerator + 1)\<close>
  lies in [0, largestGenerator], so \<^verbatim>\<open>largestGenerator + 1\<close> is never passed.
\<close>

lemma insert_draws_generator:
  assumes "rr g 7 = Inr (2, g1)" and "rr g1 (length_bw ops w) = Inr (index, g2)"
    and "length_bw ops w \<le> ml - 2" and "0 \<le> largestGenerator ops w"
  shows "\<exists>gen g3. rr g2 (largestGenerator ops w + 1) = Inr (gen, g3)
           \<and> 0 \<le> gen \<and> gen \<le> largestGenerator ops w
           \<and> model_step ops mg ml step (w, g, log) =
               (case insert_bw ops w index gen g3 of
                  (ok, w', g4) \<Rightarrow> Inr (w', g4, log(step \<mapsto> log_message 2 ''insert'' ok)))"
proof -
  from assms(4) have pos: "0 < largestGenerator ops w + 1" by simp
  let ?gen = "int (shd g2 mod nat (largestGenerator ops w + 1))"
  have d: "rr g2 (largestGenerator ops w + 1) = Inr (?gen, stl g2)"
    by (rule rr_pos [OF pos])
  from rr_range [OF d] have r: "0 \<le> ?gen \<and> ?gen \<le> largestGenerator ops w"
    by simp
  from assms d have "model_step ops mg ml step (w, g, log) =
      (case insert_bw ops w index ?gen (stl g2) of
         (ok, w', g4) \<Rightarrow> Inr (w', g4, log(step \<mapsto> log_message 2 ''insert'' ok)))"
    by (auto simp: model_step_def split: prod.splits)
  with d r show ?thesis by blast
qed

text \<open>
  C3 (the code misses the claim). The generator of Insert should be drawn from
  [1, largestGenerator + 1]; the code draws \<^verbatim>\<open>rr(braid.largestGenerator + 1)\<close>, that is
  from [0, largestGenerator]. On the word \<^verbatim>\<open>[1, 2, 3]\<close> (largest generator 3), a random
  source whose draws are 2 (Insert), 0 (index) and 0 makes the engine call
  \<^verbatim>\<open>insert(0, 0)\<close>: the generator passed is 0, and the insertion of the specification
  yields the word \<^verbatim>\<open>[0, 0, 1, 2, 3]\<close>, whose first two elements are no generators.
\<close>

theorem insert_passes_generator_zero:
  "rr (2 ## 0 ## 0 ## sconst 0) 7 = Inr (2, 0 ## 0 ## sconst 0)
   \<and> rr (0 ## 0 ## sconst 0) (length_bw BraidWord [1, 2, 3]) = Inr (0, 0 ## sconst 0)
   \<and> rr (0 ## sconst 0) (largestGenerator BraidWord [1, 2, 3] + 1) = Inr (0, sconst 0)
   \<and> model_step BraidWord 9 10 0 ([1, 2, 3], 2 ## 0 ## 0 ## sconst 0, Map.empty) =
       (case insert_bw BraidWord [1, 2, 3] 0 0 (sconst 0) of
          (ok, w', g4) \<Rightarrow> Inr (w', g4, [0 \<mapsto> log_message 2 ''insert'' ok]))
   \<and> model_step BraidWord 9 10 0 ([1, 2, 3], 2 ## 0 ## 0 ## sconst 0, Map.empty) =
       Inr ([0, 0, 1, 2, 3], sconst 0, [0 \<mapsto> log_message 2 ''insert'' True])"
  by (simp add: model_step_def rr_Cons bw_defs)

text \<open>
  C2 (what the code does). \<^verbatim>\<open>new_braidword\<close> never replaces the working word: called on
  an instance with one argument it raises \<^verbatim>\<open>TypeError\<close> (two positional arguments for
  one parameter), whatever the argument; called on an instance with no argument it raises
  \<^verbatim>\<open>ValueError\<close>; called as a plain function it raises \<^verbatim>\<open>NameError\<close> for a
  \<^verbatim>\<open>BraidWord\<close>, and for a list the constructor's exception or \<^verbatim>\<open>NameError\<close>. No call
  returns.
\<close>

theorem new_braidword_always_raises:
  "method_new_braidword BraidWord_init mc [x] = Inl TypeError
   \<and> method_new_braidword BraidWord_init mc [] = Inl ValueError
   \<and> call_new_braidword BraidWord_init [BraidWordV b] = Inl NameError
   \<and> call_new_braidword BraidWord_init [ListV xs] =
       (case BraidWord_init xs of Inl e \<Rightarrow> Inl e | Inr b' \<Rightarrow> Inl NameError)
   \<and> (\<exists>e. call_new_braidword BraidWord_init args = Inl e)"
proof -
  have "\<exists>e. new_braidword BraidWord_init v = Inl e" for v
    by (cases v)
      (auto simp: new_braidword_def assign_self_braid_def module_self_def split: sum.splits)
  then have "\<exists>e. call_new_braidword BraidWord_init args = Inl e"
    by (auto simp: call_new_braidword_def split: list.splits)
  then show ?thesis
    by (simp add: method_new_braidword_def call_new_braidword_def new_braidword_def
        assign_self_braid_def module_self_def split: sum.splits)
qed

text \<open>
  C1 (what the code does). \<^verbatim>\<open>braidreps()\<close> copies only the list: the snapshots in it,
  and with \<^verbatim>\<open>as_word=True\<close> the element lists, are the engine's own objects. A caller
  that appends 4 to the first word it was handed changes what the next call returns, from
  \<^verbatim>\<open>[[1, 2, 3]]\<close> to \<^verbatim>\<open>[[1, 2, 3, 4]]\<close>.
\<close>

theorem braidreps_shares_snapshots:
  "caller_braidreps_words store0 5 4 = Inr (Some [[1, 2, 3]], Some [[1, 2, 3, 4]])
   \<and> caller_braidreps store0 5 4 = Inr (Some [[1, 2, 3]], Some [[1, 2, 3, 4]])"
  by (simp add: caller_braidreps_words_def caller_braidreps_def store0_def braidreps_def
      store_defs)

lemma aggregate_isolated_example:
  "caller_aggregate store0 5 4 0 ''x'' =
     Inr (Some ([[1, 2, 3]], [Map.empty]), Some ([[1, 2, 3]], [Map.empty]))"
  by (simp add: caller_aggregate_def store0_def aggregate_def deepcopy_agg_def
      deepcopy_list_def deepcopy_log_def deepcopy_braidword_def deepcopy_intlist_def
      store_defs)

lemma logs_isolated_example:
  "caller_logs store0 5 0 ''x'' = Inr (Some [Map.empty], Some [Map.empty])"
  by (simp add: caller_logs_def store0_def logs_def deepcopy_list_def deepcopy_log_def
      store_defs)

end
